theory Spec2Isabelle
  imports Complex_Main "HOL-Library.Word" "HOL-Library.List_Lexorder" "HOL-Library.DAList"
begin

unbundle bit_operations_syntax

section \<open>Values of the platform\<close>

text \<open>
  The worker \<^verbatim>\<open>scrubWorker.ts\<close> handles three kinds of raw data: the contents of an
  \<^verbatim>\<open>ArrayBuffer\<close>, read through a \<^verbatim>\<open>Uint8Array\<close> (a list of 8-bit words), JavaScript
  strings (a list of UTF-16 code units, so \<^verbatim>\<open>charCodeAt\<close> is the element itself) and
  JavaScript numbers. The default order of \<^verbatim>\<open>Array.prototype.sort\<close> on strings compares
  code units from the left and puts a proper prefix first, which is the lexicographic
  order of lists over the order of 16-bit words.
\<close>

type_synonym ArrayBuffer = "8 word list"
type_synonym jsstring = "16 word list"

definition ascii :: "string \<Rightarrow> jsstring" where
  \<comment> \<open>a string literal of the source: all of them are ASCII\<close>
  "ascii s = map (\<lambda>c. of_char c) s"

text \<open>
  A number is a double. The worker only compares numbers and asks whether a value is one,
  so a double is its exact real value, one of the two infinities, or NaN; both signed
  zeros are \<open>Finite 0\<close>.
\<close>

datatype jsnum = NaN | NegInfinity | Finite real | PosInfinity

fun jsnum_less :: "jsnum \<Rightarrow> jsnum \<Rightarrow> bool" where
  \<comment> \<open>the comparison \<^verbatim>\<open>a < b\<close> of two numbers; false whenever one of them is NaN\<close>
  "jsnum_less NaN _ = False"
| "jsnum_less _ NaN = False"
| "jsnum_less _ NegInfinity = False"
| "jsnum_less NegInfinity _ = True"
| "jsnum_less PosInfinity _ = False"
| "jsnum_less (Finite a) (Finite b) = (a < b)"
| "jsnum_less (Finite a) PosInfinity = True"

definition Math_max :: "jsnum \<Rightarrow> jsnum \<Rightarrow> jsnum" where
  \<comment> \<open>\<^verbatim>\<open>Math.max(a, b)\<close>: NaN as soon as one argument is NaN\<close>
  "Math_max a b = (if a = NaN \<or> b = NaN then NaN else if jsnum_less a b then b else a)"

definition Math_min :: "jsnum \<Rightarrow> jsnum \<Rightarrow> jsnum" where
  \<comment> \<open>\<^verbatim>\<open>Math.min(a, b)\<close>: NaN as soon as one argument is NaN\<close>
  "Math_min a b = (if a = NaN \<or> b = NaN then NaN else if jsnum_less b a then b else a)"

text \<open>
  Primitive values, the values held by the properties of a parsed tag table (a primitive,
  or a reference to some array, date or typed array that the worker never looks into), and
  objects: the own enumerable properties in the order \<^verbatim>\<open>Object.keys\<close> lists them. An
  object has each property name once, which the type of association lists with distinct
  keys expresses.
\<close>

datatype prim = Undefined | Null | Boolean bool | Number jsnum | Str jsstring

datatype jsval = Prim prim | Ref nat

type_synonym jsobject = "(jsstring, jsval) alist"

datatype resolved = Primitive prim | Object jsobject

fun typeof_prim :: "prim \<Rightarrow> string" where
  "typeof_prim Undefined = ''undefined''"
| "typeof_prim Null = ''object''"
| "typeof_prim (Boolean _) = ''boolean''"
| "typeof_prim (Number _) = ''number''"
| "typeof_prim (Str _) = ''string''"

fun typeof_val :: "jsval \<Rightarrow> string" where
  "typeof_val (Prim p) = typeof_prim p"
| "typeof_val (Ref _) = ''object''"

fun typeof_resolved :: "resolved \<Rightarrow> string" where
  "typeof_resolved (Primitive p) = typeof_prim p"
| "typeof_resolved (Object _) = ''object''"

fun truthy :: "resolved \<Rightarrow> bool" where
  "truthy (Primitive Undefined) = False"
| "truthy (Primitive Null) = False"
| "truthy (Primitive (Boolean b)) = b"
| "truthy (Primitive (Number n)) = (n \<noteq> NaN \<and> n \<noteq> Finite 0)"
| "truthy (Primitive (Str s)) = (s \<noteq> [])"
| "truthy (Object _) = True"

definition Object_keys :: "jsobject \<Rightarrow> jsstring list" where
  "Object_keys obj = map fst (DAList.impl_of obj)"

definition get_prop :: "jsobject \<Rightarrow> string \<Rightarrow> jsval" where
  \<comment> \<open>\<^verbatim>\<open>parsed.Name\<close> and \<^verbatim>\<open>parsed['Name']\<close>: \<^verbatim>\<open>undefined\<close> when the property is missing\<close>
  "get_prop obj name =
     (case DAList.lookup obj (ascii name) of None \<Rightarrow> Prim Undefined | Some v \<Rightarrow> v)"

definition nullish :: "jsval \<Rightarrow> jsval \<Rightarrow> jsval" where
  \<comment> \<open>\<^verbatim>\<open>a ?? b\<close>\<close>
  "nullish a b = (if a = Prim Undefined \<or> a = Prim Null then b else a)"

text \<open>
  A thrown value is an instance of \<^verbatim>\<open>Error\<close> with its message, a primitive (codec
  libraries compiled from C++ throw numbers and strings), or an object that is no instance
  of \<^verbatim>\<open>Error\<close>. Of such an object the worker only asks \<^verbatim>\<open>String(e)\<close>, which calls the
  object's own conversion methods: it returns a string (\<open>Inr\<close>), or throws (\<open>Inl\<close>), as
  it does for an object that has neither a usable \<^verbatim>\<open>toString\<close> nor \<^verbatim>\<open>valueOf\<close>. An
  operation that may throw returns \<open>thrown + 'a\<close>; \<^verbatim>\<open>await\<close> of a rejected promise throws
  the rejection value.
\<close>

datatype thrown = ErrorInstance jsstring | Thrown prim | ThrownObject "thrown + jsstring"

definition bind :: "thrown + 'a \<Rightarrow> ('a \<Rightarrow> thrown + 'b) \<Rightarrow> thrown + 'b" where
  "bind m f = (case m of Inl e \<Rightarrow> Inl e | Inr x \<Rightarrow> f x)"

definition try_catch :: "thrown + 'a \<Rightarrow> (thrown \<Rightarrow> thrown + 'a) \<Rightarrow> thrown + 'a" where
  "try_catch m handler = (case m of Inl e \<Rightarrow> handler e | Inr x \<Rightarrow> Inr x)"

definition throw_Error :: "string \<Rightarrow> thrown + 'a" where
  \<comment> \<open>\<^verbatim>\<open>throw new Error('...')\<close>\<close>
  "throw_Error msg = Inl (ErrorInstance (ascii msg))"

text \<open>
  An \<^verbatim>\<open>async\<close> function can also stay suspended for ever at an \<^verbatim>\<open>await\<close> whose promise
  never settles. The promises of the platform and of the parser settle; the promise that
  \<^verbatim>\<open>decodeHeicToImageData\<close> builds itself settles only when the decoder calls the
  callback back. So the outcome of such a function is a value, a thrown value, or
  \<open>NeverSettles\<close>, which no \<^verbatim>\<open>catch\<close> sees.
\<close>

datatype abrupt = Throws thrown | NeverSettles

definition settled :: "thrown + 'a \<Rightarrow> abrupt + 'a" where
  \<comment> \<open>the outcome of a call that returns or throws\<close>
  "settled m = (case m of Inl x \<Rightarrow> Inl (Throws x) | Inr v \<Rightarrow> Inr v)"

definition bind_async :: "abrupt + 'a \<Rightarrow> ('a \<Rightarrow> abrupt + 'b) \<Rightarrow> abrupt + 'b" where
  "bind_async m f = (case m of Inl a \<Rightarrow> Inl a | Inr x \<Rightarrow> f x)"

definition try_catch_async :: "abrupt + 'a \<Rightarrow> (thrown \<Rightarrow> abrupt + 'a) \<Rightarrow> abrupt + 'a" where
  "try_catch_async m handler =
     (case m of
        Inl (Throws x) \<Rightarrow> handler x
      | Inl NeverSettles \<Rightarrow> Inl NeverSettles
      | Inr v \<Rightarrow> Inr v)"

section \<open>Data model of the worker\<close>

datatype outputType = image_jpeg | image_png | image_webp

fun outputType_string :: "outputType \<Rightarrow> jsstring" where
  "outputType_string image_jpeg = ascii ''image/jpeg''"
| "outputType_string image_png = ascii ''image/png''"
| "outputType_string image_webp = ascii ''image/webp''"

record ScrubRequest =
  req_id :: jsstring
  fileName :: jsstring
  mimeType :: jsstring
  bytes :: ArrayBuffer
  outputType :: outputType
  quality :: jsnum

record Gps =
  latitude :: jsval
  longitude :: jsval

text \<open>
  An optional field is \<open>None\<close> while the object has no such property; the field
  \<^verbatim>\<open>make\<close> is \<open>make'\<close> here. The casts
  \<^verbatim>\<open>as string | undefined\<close> of the source check nothing, so a field holds whatever value
  the tag table had.
\<close>

record Verification =
  hasExif :: bool
  hasXmp :: bool
  hasIptc :: bool
  exifKeys :: "jsstring list"
  gps :: "Gps option"
  dateTimeOriginal :: "jsval option"
  make' :: "jsval option"
  model :: "jsval option"
  software :: "jsval option"

datatype ScrubResponse =
  Success (resp_id: jsstring) (cleanedBytes: ArrayBuffer) (cleanedMimeType: jsstring)
    (before: Verification) (after: Verification)
| Failure (resp_id: jsstring) (error: jsstring)


text \<open>
  What the worker calls and does not define: the metadata parser \<^verbatim>\<open>exifr.parse\<close> with
  the options it is given, the HEIF decoder of \<^verbatim>\<open>libheif-js\<close>, and the browser's
  raster surface, bitmap decoder and encoder. Each is a function of the environment that
  returns or throws. A decoded HEIF image answers \<^verbatim>\<open>display\<close> by handing the filled
  image data, or \<^verbatim>\<open>undefined\<close>, to the callback, or by not calling the callback at all.
\<close>

datatype 'a callback = NoCallback | Callback 'a

record exifr_options =
  translateKeys :: bool
  mergeOutput :: bool
  opt_tiff :: bool
  opt_exif :: bool
  opt_gps :: bool
  opt_iptc :: bool
  opt_xmp :: bool

record ImageData =
  width :: nat
  height :: nat
  data :: ArrayBuffer

record HeifImage =
  get_width :: nat
  get_height :: nat
  display :: "ImageData \<Rightarrow> ImageData option callback"

record ImageBitmap =
  bitmap_width :: nat
  bitmap_height :: nat
  bitmap_pixels :: ArrayBuffer

record OffscreenCanvas =
  canvas_width :: nat
  canvas_height :: nat
  canvas_pixels :: ArrayBuffer

record Blob =
  blob_type :: jsstring
  blob_bytes :: ArrayBuffer

record ImageEncodeOptions =
  encode_type :: outputType
  encode_quality :: jsnum

record env =
  exifr_parse :: "ArrayBuffer \<Rightarrow> exifr_options \<Rightarrow> thrown + resolved"
  toLowerCase :: "jsstring \<Rightarrow> jsstring"
  HeifDecoder_decode :: "ArrayBuffer \<Rightarrow> thrown + HeifImage list option"
  getContext_2d :: "nat \<Rightarrow> nat \<Rightarrow> bool"
  createImageData :: "nat \<Rightarrow> nat \<Rightarrow> thrown + ImageData"
  createImageBitmap :: "ArrayBuffer \<Rightarrow> jsstring \<Rightarrow> thrown + ImageBitmap"
  convertToBlob :: "OffscreenCanvas \<Rightarrow> ImageEncodeOptions \<Rightarrow> thrown + Blob"
  String_of :: "prim \<Rightarrow> jsstring"

section \<open>Marker scanner\<close>

definition index_u8 :: "ArrayBuffer \<Rightarrow> nat \<Rightarrow> nat option" where
  \<comment> \<open>\<^verbatim>\<open>bytes[i]\<close>: the element as a number, \<^verbatim>\<open>undefined\<close> (\<open>None\<close>) out of range\<close>
  "index_u8 bs i = (if i < length bs then Some (unat (bs ! i)) else None)"

definition charCodeAt_and_ff :: "jsstring \<Rightarrow> nat \<Rightarrow> nat" where
  \<comment> \<open>\<^verbatim>\<open>needle.charCodeAt(j) & 0xff\<close>; out of range \<^verbatim>\<open>charCodeAt\<close> is NaN and \<^verbatim>\<open>NaN & 0xff\<close> is 0\<close>
  "charCodeAt_and_ff needle j = (if j < length needle then unat (needle ! j AND 0xff) else 0)"

function includesAscii_inner :: "ArrayBuffer \<Rightarrow> jsstring \<Rightarrow> nat \<Rightarrow> nat \<Rightarrow> bool" where
  \<comment> \<open>the loop over \<^verbatim>\<open>j\<close>; the result is the final value of \<^verbatim>\<open>ok\<close>\<close>
  "includesAscii_inner bs needle i j =
     (if j < length needle then
        (if index_u8 bs (i + j) \<noteq> Some (charCodeAt_and_ff needle j) then False
         else includesAscii_inner bs needle i (Suc j))
      else True)"
  by pat_completeness auto
termination
  by (relation "measure (\<lambda>(bs, needle, i, j). length needle - j)") auto

function includesAscii_outer :: "ArrayBuffer \<Rightarrow> jsstring \<Rightarrow> nat \<Rightarrow> nat \<Rightarrow> bool" where
  \<comment> \<open>the loop over \<^verbatim>\<open>i\<close>; \<^verbatim>\<open>bytes.length - n\<close> is a JavaScript number and may be negative\<close>
  "includesAscii_outer bs needle first i =
     (if int i \<le> int (length bs) - int (length needle) then
        (if index_u8 bs i \<noteq> Some first then includesAscii_outer bs needle first (Suc i)
         else if includesAscii_inner bs needle i 1 then True
         else includesAscii_outer bs needle first (Suc i))
      else False)"
  by pat_completeness auto
termination
  by (relation "measure (\<lambda>(bs, needle, first, i). Suc (length bs) - i)") auto

declare includesAscii_inner.simps [simp del]
declare includesAscii_outer.simps [simp del]

definition includesAscii :: "ArrayBuffer \<Rightarrow> jsstring \<Rightarrow> bool" where
  "includesAscii bs needle =
     (let n = length needle in
      if n = 0 then True
      else let first = charCodeAt_and_ff needle 0 in includesAscii_outer bs needle first 0)"

definition verify :: "ArrayBuffer \<Rightarrow> Verification" where
  "verify bs =
     (let u8 = bs;
          hasXmp =
            (includesAscii u8 (ascii ''<x:xmpmeta'') \<or>
             includesAscii u8 (ascii ''http://ns.adobe.com/xap/1.0/'') \<or>
             includesAscii u8 (ascii ''http://purl.org/dc/elements/1.1/''));
          hasIptc =
            (includesAscii u8 (ascii ''Photoshop 3.0'') \<or>
             includesAscii u8 (ascii ''IPTC'') \<or>
             includesAscii u8 (ascii ''8BIM''));
          exifKeys = []
      in \<lparr>hasExif = includesAscii u8 (ascii ''Exif''), hasXmp = hasXmp, hasIptc = hasIptc,
          exifKeys = exifKeys, gps = None, dateTimeOriginal = None, make' = None,
          model = None, software = None\<rparr>)"

section \<open>Structured metadata extraction\<close>

definition parse_options :: exifr_options where
  \<comment> \<open>the options literal handed to \<^verbatim>\<open>exifr.parse\<close>\<close>
  "parse_options =
     \<lparr>translateKeys = False, mergeOutput = True, opt_tiff = True, opt_exif = True,
      opt_gps = True, opt_iptc = False, opt_xmp = False\<rparr>"

definition read_parsed :: "Verification \<Rightarrow> jsobject \<Rightarrow> Verification" where
  \<comment> \<open>the body of \<^verbatim>\<open>if (parsed && typeof parsed === 'object')\<close>, assignment by assignment\<close>
  "read_parsed base0 parsed =
     (let keys = sort (Object_keys parsed);
          base1 = base0\<lparr>exifKeys := keys\<rparr>;
          base2 = base1\<lparr>hasExif := (hasExif base1 \<or> length keys > 0)\<rparr>;
          latitude = nullish (get_prop parsed ''GPSLatitude'') (get_prop parsed ''latitude'');
          longitude = nullish (get_prop parsed ''GPSLongitude'') (get_prop parsed ''longitude'');
          base3 =
            (if typeof_val latitude = ''number'' \<or> typeof_val longitude = ''number''
             then base2\<lparr>gps := Some \<lparr>latitude = latitude, longitude = longitude\<rparr>\<rparr>
             else base2);
          base4 = base3\<lparr>dateTimeOriginal :=
            Some (nullish (nullish (get_prop parsed ''DateTimeOriginal'')
                                   (get_prop parsed ''DateTime''))
                          (get_prop parsed ''Date/Time Original''))\<rparr>;
          base5 = base4\<lparr>make' := Some (nullish (get_prop parsed ''Make'') (get_prop parsed ''make''))\<rparr>;
          base6 = base5\<lparr>model := Some (nullish (get_prop parsed ''Model'') (get_prop parsed ''model''))\<rparr>
      in base6\<lparr>software :=
            Some (nullish (get_prop parsed ''Software'') (get_prop parsed ''software''))\<rparr>)"

definition verifyDeep :: "env \<Rightarrow> ArrayBuffer \<Rightarrow> thrown + Verification" where
  "verifyDeep e bs =
     (let base = verify bs in
      try_catch
        (bind (exifr_parse e bs parse_options) (\<lambda>parsed.
           if truthy parsed \<and> typeof_resolved parsed = ''object'' then
             (case parsed of
                Object obj \<Rightarrow> Inr (read_parsed base obj)
              | Primitive _ \<Rightarrow> Inr base)
           else Inr base))
        (\<lambda>_. Inr base))"

section \<open>Container decoding\<close>

definition String_endsWith :: "jsstring \<Rightarrow> jsstring \<Rightarrow> bool" where
  \<comment> \<open>\<^verbatim>\<open>s.endsWith(t)\<close>\<close>
  "String_endsWith s t = (length t \<le> length s \<and> drop (length s - length t) s = t)"

fun String_includes :: "jsstring \<Rightarrow> jsstring \<Rightarrow> bool" where
  \<comment> \<open>\<^verbatim>\<open>s.includes(t)\<close>: \<^verbatim>\<open>t\<close> starts at some position of \<^verbatim>\<open>s\<close>\<close>
  "String_includes [] t = (t = [])"
| "String_includes (c # s) t = (take (length t) (c # s) = t \<or> String_includes s t)"

text \<open>
  \<^verbatim>\<open>String.prototype.toLowerCase\<close> follows the Unicode case tables of the platform; the
  function is a parameter here.
\<close>

definition isHeicLike :: "(jsstring \<Rightarrow> jsstring) \<Rightarrow> jsstring \<Rightarrow> jsstring \<Rightarrow> bool" where
  "isHeicLike lower fname mtype =
     (let n = lower fname; m = lower mtype in
      String_endsWith n (ascii ''.heic'') \<or>
      String_endsWith n (ascii ''.heif'') \<or>
      String_endsWith n (ascii ''.avif'') \<or>
      String_includes m (ascii ''heic'') \<or>
      String_includes m (ascii ''heif'') \<or>
      String_includes m (ascii ''avif''))"

definition decodeHeicToImageData :: "env \<Rightarrow> ArrayBuffer \<Rightarrow> abrupt + ImageData" where
  \<comment> \<open>\<open>None\<close> and the empty list are the two ways of \<^verbatim>\<open>!data || !data.length\<close>\<close>
  "decodeHeicToImageData e bs =
     bind_async (settled (HeifDecoder_decode e bs)) (\<lambda>decoded.
       case decoded of
         None \<Rightarrow> settled (throw_Error ''HEIC decode failed: no images found'')
       | Some [] \<Rightarrow> settled (throw_Error ''HEIC decode failed: no images found'')
       | Some (img # _) \<Rightarrow>
           (let w = get_width img; h = get_height img in
            if \<not> getContext_2d e w h
            then settled (throw_Error ''Failed to create canvas context'')
            else bind_async (settled (createImageData e w h)) (\<lambda>imgData.
              case display img imgData of
                NoCallback \<Rightarrow> Inl NeverSettles
              | Callback None \<Rightarrow> settled (throw_Error ''HEIC processing error'')
              | Callback (Some filled) \<Rightarrow> Inr filled)))"

definition canvas_heic :: "env \<Rightarrow> ScrubRequest \<Rightarrow> abrupt + OffscreenCanvas" where
  \<comment> \<open>the branch of \<^verbatim>\<open>scrub\<close> taken when \<^verbatim>\<open>isHeicLike\<close> holds\<close>
  "canvas_heic e req =
     bind_async (decodeHeicToImageData e (bytes req)) (\<lambda>imgData.
       if \<not> getContext_2d e (width imgData) (height imgData)
       then settled (throw_Error ''Failed to create canvas context'')
       else Inr \<lparr>canvas_width = width imgData, canvas_height = height imgData,
                 canvas_pixels = data imgData\<rparr>)"

definition canvas_native :: "env \<Rightarrow> ScrubRequest \<Rightarrow> abrupt + OffscreenCanvas" where
  \<comment> \<open>the other branch: \<^verbatim>\<open>createImageBitmap\<close> of a blob of the bytes with the request's type\<close>
  "canvas_native e req =
     bind_async (settled (createImageBitmap e (bytes req) (mimeType req))) (\<lambda>bitmap.
       if \<not> getContext_2d e (bitmap_width bitmap) (bitmap_height bitmap)
       then settled (throw_Error ''Failed to create canvas context'')
       else Inr \<lparr>canvas_width = bitmap_width bitmap, canvas_height = bitmap_height bitmap,
                 canvas_pixels = bitmap_pixels bitmap\<rparr>)"

definition scrub_canvas :: "env \<Rightarrow> ScrubRequest \<Rightarrow> abrupt + OffscreenCanvas" where
  "scrub_canvas e req =
     (if isHeicLike (toLowerCase e) (fileName req) (mimeType req) then canvas_heic e req
      else canvas_native e req)"

section \<open>Re-encoding and the scrub operation\<close>

definition encode_options :: "ScrubRequest \<Rightarrow> ImageEncodeOptions" where
  \<comment> \<open>the options literal handed to \<^verbatim>\<open>canvas.convertToBlob\<close>\<close>
  "encode_options req =
     \<lparr>encode_type = outputType req,
      encode_quality = Math_min (Finite 1) (Math_max (Finite 0) (quality req))\<rparr>"

definition scrub_try :: "env \<Rightarrow> ScrubRequest \<Rightarrow> abrupt + ScrubResponse" where
  \<comment> \<open>the \<^verbatim>\<open>try\<close> block of \<^verbatim>\<open>scrub\<close>\<close>
  "scrub_try e req =
     bind_async (settled (verifyDeep e (bytes req))) (\<lambda>before.
     bind_async (scrub_canvas e req) (\<lambda>canvas.
     bind_async (settled (convertToBlob e canvas (encode_options req))) (\<lambda>out.
     let cleanedBytes = blob_bytes out in
     bind_async (settled (verifyDeep e cleanedBytes)) (\<lambda>after.
     Inr (Success (req_id req) cleanedBytes
            (if blob_type out \<noteq> [] then blob_type out else outputType_string (outputType req))
            before after)))))"

definition message_of :: "env \<Rightarrow> thrown \<Rightarrow> thrown + jsstring" where
  \<comment> \<open>\<^verbatim>\<open>e instanceof Error ? e.message : String(e)\<close>, which runs outside every \<^verbatim>\<open>try\<close>\<close>
  "message_of e err =
     (case err of
        ErrorInstance m \<Rightarrow> Inr m
      | Thrown p \<Rightarrow> Inr (String_of e p)
      | ThrownObject conversion \<Rightarrow> conversion)"

definition scrub :: "env \<Rightarrow> ScrubRequest \<Rightarrow> abrupt + ScrubResponse" where
  "scrub e req =
     try_catch_async (scrub_try e req)
       (\<lambda>err. bind_async (settled (message_of e err)) (\<lambda>msg.
              Inr (Failure (req_id req) msg)))"

section \<open>A concrete environment\<close>

text \<open>
  An environment to run the worker on examples: the parser finds nothing, the HEIF
  decoder finds no image, the bitmap decoder answers with one white pixel, and the encoder
  writes the pixels out unchanged. Lower-casing is the ASCII part of the Unicode mapping,
  which is all that the example strings need; no example throws a primitive, and the
  conversion of one to a string is left trivial.
\<close>

definition ascii_toLowerCase :: "jsstring \<Rightarrow> jsstring" where
  "ascii_toLowerCase s = map (\<lambda>c. if 0x41 \<le> c \<and> c \<le> 0x5A then c + 0x20 else c) s"

definition example_env :: env where
  "example_env =
     \<lparr>exifr_parse = (\<lambda>_ _. Inr (Primitive Undefined)),
      toLowerCase = ascii_toLowerCase,
      HeifDecoder_decode = (\<lambda>_. Inr (Some [])),
      getContext_2d = (\<lambda>_ _. True),
      createImageData = (\<lambda>w h. Inr \<lparr>width = w, height = h, data = replicate (4 * w * h) 0\<rparr>),
      createImageBitmap = (\<lambda>_ _. Inr \<lparr>bitmap_width = 1, bitmap_height = 1,
                                      bitmap_pixels = [255, 255, 255, 255]\<rparr>),
      convertToBlob = (\<lambda>c opts. Inr \<lparr>blob_type = outputType_string (encode_type opts),
                                     blob_bytes = canvas_pixels c\<rparr>),
      String_of = (\<lambda>_. [])\<rparr>"





text \<open>
  A tag table as the parser may resolve to: a make, a longitude held as an array of
  degrees, minutes and seconds, and a computed latitude.
\<close>

definition example_tags :: jsobject where
  "example_tags =
     DAList.update (ascii ''latitude'') (Prim (Number (Finite 37.5)))
       (DAList.update (ascii ''GPSLongitude'') (Ref 0)
         (DAList.update (ascii ''Make'') (Prim (Str (ascii ''Canon''))) DAList.empty))"

section \<open>Notions of the specification\<close>

text \<open>
  The definitions of this section follow the words of the specification, to compare the
  code with: a needle found at a position of a buffer, a value in the interval from 0 to 1,
  clamping to that interval, and a name or type that mentions one of the three formats
  without regard to case.
\<close>

definition match_at :: "ArrayBuffer \<Rightarrow> jsstring \<Rightarrow> nat \<Rightarrow> bool" where
  "match_at bs s p \<longleftrightarrow> (\<forall>k<length s. index_u8 bs (p + k) = Some (charCodeAt_and_ff s k))"

fun in_unit_interval :: "jsnum \<Rightarrow> bool" where
  "in_unit_interval (Finite r) = (0 \<le> r \<and> r \<le> 1)"
| "in_unit_interval _ = False"


definition mentions_heic :: "(jsstring \<Rightarrow> jsstring) \<Rightarrow> jsstring \<Rightarrow> bool" where
  "mentions_heic lower s =
     (String_includes (lower s) (ascii ''heic'') \<or>
      String_includes (lower s) (ascii ''heif'') \<or>
      String_includes (lower s) (ascii ''avif''))"

section \<open>The marker scanner finds exactly the contiguous runs\<close>

lemma and_ff_mod: "unat ((c::16 word) AND 0xff) = unat c mod 256"
proof -
  have "(0xff :: 16 word) = mask 8" by (simp add: mask_eq_exp_minus_1)
  then have "unat (c AND 0xff) = unat (take_bit 8 c)" by (simp only: take_bit_eq_mask)
  also have "\<dots> = take_bit 8 (unat c)" by (rule unsigned_take_bit_eq)
  also have "\<dots> = unat c mod 256" by (simp add: take_bit_eq_mod)
  finally show ?thesis .
qed

lemma inner_iff:
  "includesAscii_inner bs s i j \<longleftrightarrow>
     (\<forall>k. j \<le> k \<and> k < length s \<longrightarrow> index_u8 bs (i + k) = Some (charCodeAt_and_ff s k))"
proof (induction bs s i j rule: includesAscii_inner.induct)
  case (1 bs needle i j)
  show ?case
  proof (cases "j < length needle")
    case False
    then show ?thesis by (auto simp: includesAscii_inner.simps [of bs needle i j])
  next
    case True
    show ?thesis
    proof (cases "index_u8 bs (i + j) = Some (charCodeAt_and_ff needle j)")
      case False
      with True show ?thesis
        by (auto simp: includesAscii_inner.simps [of bs needle i j])
    next
      case hit: True
      have "includesAscii_inner bs needle i j = includesAscii_inner bs needle i (Suc j)"
        using True hit by (simp add: includesAscii_inner.simps [of bs needle i j])
      also have "\<dots> = (\<forall>k. Suc j \<le> k \<and> k < length needle \<longrightarrow>
          index_u8 bs (i + k) = Some (charCodeAt_and_ff needle k))"
        using "1.IH" True hit by simp
      also have "\<dots> = (\<forall>k. j \<le> k \<and> k < length needle \<longrightarrow>
          index_u8 bs (i + k) = Some (charCodeAt_and_ff needle k))"
        using hit by (metis Suc_leI le_neq_implies_less Suc_leD)
      finally show ?thesis .
    qed
  qed
qed

lemma outer_iff:
  "s \<noteq> [] \<Longrightarrow> includesAscii_outer bs s (charCodeAt_and_ff s 0) i \<longleftrightarrow>
     (\<exists>p\<ge>i. p + length s \<le> length bs \<and> match_at bs s p)"
proof (induction bs s "charCodeAt_and_ff s 0" i rule: includesAscii_outer.induct)
  case (1 bs needle i)
  let ?first = "charCodeAt_and_ff needle 0"
  have here: "(index_u8 bs i = Some ?first \<and> includesAscii_inner bs needle i 1) = match_at bs needle i"
    using \<open>needle \<noteq> []\<close> unfolding inner_iff match_at_def
    by (metis One_nat_def Suc_leI add.right_neutral length_greater_0_conv less_one
        not_less_eq_eq linorder_not_less)
  show ?case
  proof (cases "int i \<le> int (length bs) - int (length needle)")
    case False
    then have "\<not> (\<exists>p\<ge>i. p + length needle \<le> length bs \<and> match_at bs needle p)" by auto
    with False show ?thesis by (simp add: includesAscii_outer.simps [of bs needle ?first i])
  next
    case True
    then have fits: "i + length needle \<le> length bs" by simp
    show ?thesis
    proof (cases "match_at bs needle i")
      case True
      with here fits \<open>int i \<le> int (length bs) - int (length needle)\<close> show ?thesis
        by (auto simp: includesAscii_outer.simps [of bs needle ?first i])
    next
      case False
      with here have "includesAscii_outer bs needle ?first i =
          includesAscii_outer bs needle ?first (Suc i)"
        using True by (auto simp: includesAscii_outer.simps [of bs needle ?first i])
      also have "\<dots> = (\<exists>p\<ge>Suc i. p + length needle \<le> length bs \<and> match_at bs needle p)"
        using "1.hyps" True here False \<open>needle \<noteq> []\<close> by blast
      also have "\<dots> = (\<exists>p\<ge>i. p + length needle \<le> length bs \<and> match_at bs needle p)"
        using False by (metis Suc_leD Suc_leI le_neq_implies_less)
      finally show ?thesis .
    qed
  qed
qed

lemma match_at_iff_append:
  "(\<exists>p. p + length s \<le> length bs \<and> match_at bs s p) \<longleftrightarrow>
   (\<exists>ps ss. map unat bs = ps @ map (\<lambda>c. unat c mod 256) s @ ss)"
proof
  assume "\<exists>p. p + length s \<le> length bs \<and> match_at bs s p"
  then obtain p where p: "p + length s \<le> length bs" and m: "match_at bs s p" by blast
  let ?u = "map unat bs"
  have mid: "take (length s) (drop p ?u) = map (\<lambda>c. unat c mod 256) s"
  proof (rule nth_equalityI)
    show "length (take (length s) (drop p ?u)) = length (map (\<lambda>c. unat c mod 256) s)"
      using p by simp
  next
    fix k assume "k < length (take (length s) (drop p ?u))"
    then have k: "k < length s" by simp
    with m have "index_u8 bs (p + k) = Some (charCodeAt_and_ff s k)" by (simp add: match_at_def)
    with k p show "take (length s) (drop p ?u) ! k = map (\<lambda>c. unat c mod 256) s ! k"
      by (simp add: index_u8_def charCodeAt_and_ff_def and_ff_mod split: if_splits)
  qed
  have "?u = take p ?u @ take (length s) (drop p ?u) @ drop (length s) (drop p ?u)"
    by (simp only: append_take_drop_id)
  with mid show "\<exists>ps ss. ?u = ps @ map (\<lambda>c. unat c mod 256) s @ ss" by metis
next
  assume "\<exists>ps ss. map unat bs = ps @ map (\<lambda>c. unat c mod 256) s @ ss"
  then obtain ps ss where eq: "map unat bs = ps @ map (\<lambda>c. unat c mod 256) s @ ss" by blast
  then have len: "length bs = length ps + length s + length ss"
    by (metis length_append length_map add.assoc)
  have "match_at bs s (length ps)"
    unfolding match_at_def
  proof (intro allI impI)
    fix k assume k: "k < length s"
    have "unat (bs ! (length ps + k)) = map unat bs ! (length ps + k)"
      using len k by simp
    also have "\<dots> = unat (s ! k) mod 256"
      using k by (simp add: eq nth_append)
    finally show "index_u8 bs (length ps + k) = Some (charCodeAt_and_ff s k)"
      using k len by (simp add: index_u8_def charCodeAt_and_ff_def and_ff_mod)
  qed
  with len show "\<exists>p. p + length s \<le> length bs \<and> match_at bs s p"
    by (intro exI [of _ "length ps"]) simp
qed

text \<open>
  Claim C2. For every buffer \<open>bs\<close> and every needle \<open>s\<close>, \<^verbatim>\<open>includesAscii\<close> answers true
  exactly when the needle's code units, each taken modulo 256, stand somewhere in the
  buffer as a contiguous run of bytes; for the empty needle it answers true on every
  buffer. The needle ranges over all strings of 16-bit code units, the ASCII ones among
  them.
\<close>

theorem includesAscii_contiguous_run:
  "(includesAscii bs s \<longleftrightarrow>
      (\<exists>ps ss. map unat bs = ps @ map (\<lambda>c. unat c mod 256) s @ ss)) \<and>
   includesAscii bs []"
proof (cases "s = []")
  case True
  have "map unat bs = [] @ map (\<lambda>c. unat c mod 256) [] @ map unat bs" by simp
  then have "\<exists>ps ss. map unat bs = ps @ map (\<lambda>c. unat c mod 256) ([]::jsstring) @ ss" by blast
  with True show ?thesis by (simp add: includesAscii_def)
next
  case False
  then have "includesAscii bs s = includesAscii_outer bs s (charCodeAt_and_ff s 0) 0"
    by (simp add: includesAscii_def Let_def)
  also have "\<dots> = (\<exists>p. p + length s \<le> length bs \<and> match_at bs s p)"
    using outer_iff [OF False, of bs 0] by simp
  finally have "includesAscii bs s \<longleftrightarrow>
      (\<exists>ps ss. map unat bs = ps @ map (\<lambda>c. unat c mod 256) s @ ss)"
    by (simp only: match_at_iff_append)
  moreover have "includesAscii bs []" by (simp add: includesAscii_def)
  ultimately show ?thesis by simp
qed

section \<open>Deep verification\<close>

lemma verifyDeep_parse_throws:
  "exifr_parse e bs parse_options = Inl x \<Longrightarrow> verifyDeep e bs = Inr (verify bs)"
  by (simp add: verifyDeep_def bind_def try_catch_def)

lemma verifyDeep_parse_primitive:
  "exifr_parse e bs parse_options = Inr (Primitive p) \<Longrightarrow> verifyDeep e bs = Inr (verify bs)"
  by (cases p) (simp_all add: verifyDeep_def bind_def try_catch_def)

lemma verifyDeep_parse_object:
  "exifr_parse e bs parse_options = Inr (Object obj) \<Longrightarrow>
     verifyDeep e bs = Inr (read_parsed (verify bs) obj)"
  by (simp add: verifyDeep_def bind_def try_catch_def)

lemma verifyDeep_cases:
  obtains (throws) x where "exifr_parse e bs parse_options = Inl x"
      "verifyDeep e bs = Inr (verify bs)"
  | (primitive) p where "exifr_parse e bs parse_options = Inr (Primitive p)"
      "verifyDeep e bs = Inr (verify bs)"
  | (object) obj where "exifr_parse e bs parse_options = Inr (Object obj)"
      "verifyDeep e bs = Inr (read_parsed (verify bs) obj)"
proof (cases "exifr_parse e bs parse_options")
  case (Inl x)
  then show ?thesis using throws verifyDeep_parse_throws by blast
next
  case (Inr r)
  then show ?thesis
    using primitive object verifyDeep_parse_primitive verifyDeep_parse_object
    by (cases r) blast+
qed

lemma verifyDeep_total: "\<exists>v. verifyDeep e bs = Inr v"
  by (cases rule: verifyDeep_cases [of e bs]) simp_all

lemma verify_fields [simp]:
  "hasExif (verify bs) = includesAscii bs (ascii ''Exif'')"
  "hasXmp (verify bs) =
     (includesAscii bs (ascii ''<x:xmpmeta'') \<or>
      includesAscii bs (ascii ''http://ns.adobe.com/xap/1.0/'') \<or>
      includesAscii bs (ascii ''http://purl.org/dc/elements/1.1/''))"
  "hasIptc (verify bs) =
     (includesAscii bs (ascii ''Photoshop 3.0'') \<or>
      includesAscii bs (ascii ''IPTC'') \<or>
      includesAscii bs (ascii ''8BIM''))"
  "exifKeys (verify bs) = []"
  "gps (verify bs) = None"
  "dateTimeOriginal (verify bs) = None"
  "make' (verify bs) = None"
  "model (verify bs) = None"
  "software (verify bs) = None"
  by (simp_all add: verify_def)

lemma sort_eq_Nil_iff: "sort xs = [] \<longleftrightarrow> xs = []"
  by (metis length_sort length_0_conv)

lemma read_parsed_fields [simp]:
  "exifKeys (read_parsed base obj) = sort (Object_keys obj)"
  "hasExif (read_parsed base obj) = (hasExif base \<or> Object_keys obj \<noteq> [])"
  "hasXmp (read_parsed base obj) = hasXmp base"
  "hasIptc (read_parsed base obj) = hasIptc base"
  by (simp_all add: read_parsed_def Let_def sort_eq_Nil_iff)

subsection \<open>Runs on examples\<close>

lemma example_tags_run:
  "verifyDeep (example_env\<lparr>exifr_parse := \<lambda>_ _. Inr (Object example_tags)\<rparr>) [1, 2, 3] =
   Inr \<lparr>hasExif = True, hasXmp = False, hasIptc = False,
        exifKeys = [ascii ''GPSLongitude'', ascii ''Make'', ascii ''latitude''],
        gps = Some \<lparr>latitude = Prim (Number (Finite 37.5)), longitude = Ref 0\<rparr>,
        dateTimeOriginal = Some (Prim Undefined),
        make' = Some (Prim (Str (ascii ''Canon''))),
        model = Some (Prim Undefined), software = Some (Prim Undefined)\<rparr>"
  by code_simp

lemma example_tags_parse:
  "exifr_parse (example_env\<lparr>exifr_parse := \<lambda>_ _. Inr (Object example_tags)\<rparr>) [1, 2, 3] parse_options
     = Inr (Object example_tags)"
  by simp

lemma no_marker: "\<not> includesAscii [1, 2, 3] (ascii ''Exif'')"
  by code_simp

lemma example_tags_props:
  "get_prop example_tags ''GPSLatitude'' = Prim Undefined"
  "get_prop example_tags ''latitude'' = Prim (Number (Finite 37.5))"
  "get_prop example_tags ''GPSLongitude'' = Ref 0"
  by (simp_all add: get_prop_def example_tags_def ascii_def)

lemma parse_throws_run:
  "includesAscii [0x45, 0x78, 0x69, 0x66] (ascii ''Exif'')"
  "\<not> includesAscii [0x45, 0x78, 0x69, 0x66] (ascii ''<x:xmpmeta'')"
  "\<not> includesAscii [0x45, 0x78, 0x69, 0x66] (ascii ''http://ns.adobe.com/xap/1.0/'')"
  "\<not> includesAscii [0x45, 0x78, 0x69, 0x66] (ascii ''http://purl.org/dc/elements/1.1/'')"
  "\<not> includesAscii [0x45, 0x78, 0x69, 0x66] (ascii ''Photoshop 3.0'')"
  "\<not> includesAscii [0x45, 0x78, 0x69, 0x66] (ascii ''IPTC'')"
  "\<not> includesAscii [0x45, 0x78, 0x69, 0x66] (ascii ''8BIM'')"
  by code_simp+

text \<open>
  Claim C1. For every byte sequence and whatever the parser does, \<^verbatim>\<open>verifyDeep\<close> returns
  a snapshot whose \<^verbatim>\<open>hasExif\<close> is the disjunction of the scanner finding the marker
  \<^verbatim>\<open>Exif\<close> and of \<^verbatim>\<open>exifKeys\<close> being non-empty; and \<^verbatim>\<open>exifKeys\<close> is non-empty exactly
  when the parser resolved to an object with at least one key. So a non-empty key list
  makes \<^verbatim>\<open>hasExif\<close> true without the marker.
\<close>

theorem verifyDeep_hasExif_is_or:
  "\<exists>v. verifyDeep e bs = Inr v \<and>
       hasExif v = (includesAscii bs (ascii ''Exif'') \<or> exifKeys v \<noteq> []) \<and>
       (exifKeys v \<noteq> []) =
         (\<exists>obj. exifr_parse e bs parse_options = Inr (Object obj) \<and> Object_keys obj \<noteq> [])"
proof (cases rule: verifyDeep_cases [of e bs])
  case (throws x)
  then show ?thesis by simp
next
  case (primitive p)
  then show ?thesis by simp
next
  case (object obj)
  then show ?thesis by (simp add: sort_eq_Nil_iff)
qed

theorem verifyDeep_hasExif_is_or_witness:
  "\<not> includesAscii [1, 2, 3] (ascii ''Exif'') \<and>
   (\<exists>v. verifyDeep (example_env\<lparr>exifr_parse := \<lambda>_ _. Inr (Object example_tags)\<rparr>) [1, 2, 3] = Inr v \<and>
        exifKeys v \<noteq> [] \<and> hasExif v)"
  using verifyDeep_hasExif_is_or
    [of "example_env\<lparr>exifr_parse := \<lambda>_ _. Inr (Object example_tags)\<rparr>" "[1, 2, 3]"]
    example_tags_run no_marker
  by simp

text \<open>
  Claim C6. For every input, the \<^verbatim>\<open>exifKeys\<close> of the snapshot returned by \<^verbatim>\<open>verifyDeep\<close>
  are in lexicographic order and without duplicates. A tag name that several IFDs carry
  is one property of the merged object the parser resolves to, so \<^verbatim>\<open>Object.keys\<close> lists
  it once.
\<close>

theorem verifyDeep_exifKeys_sorted_distinct:
  "\<exists>v. verifyDeep e bs = Inr v \<and> sorted (exifKeys v) \<and> distinct (exifKeys v)"
proof (cases rule: verifyDeep_cases [of e bs])
  case (object obj)
  have "distinct (Object_keys obj)" by (simp add: Object_keys_def)
  with object show ?thesis by simp
qed simp_all

theorem verifyDeep_exifKeys_sorted_distinct_witness:
  "\<exists>v. verifyDeep (example_env\<lparr>exifr_parse := \<lambda>_ _. Inr (Object example_tags)\<rparr>) [1, 2, 3] = Inr v \<and>
       exifKeys v = [ascii ''GPSLongitude'', ascii ''Make'', ascii ''latitude''] \<and>
       sorted (exifKeys v) \<and> distinct (exifKeys v)"
  using verifyDeep_exifKeys_sorted_distinct
    [of "example_env\<lparr>exifr_parse := \<lambda>_ _. Inr (Object example_tags)\<rparr>" "[1, 2, 3]"]
    example_tags_run
  by auto

text \<open>
  Claim C8. For every byte sequence and whatever the parser finds, the \<^verbatim>\<open>hasXmp\<close> and
  \<^verbatim>\<open>hasIptc\<close> of the snapshot returned by \<^verbatim>\<open>verifyDeep\<close> are the scanner's searches for
  the literal signatures, the values \<^verbatim>\<open>verify\<close> computed; and the parser is called with
  XMP and IPTC parsing switched off.
\<close>

theorem verifyDeep_keeps_scanner_xmp_iptc:
  "\<exists>v. verifyDeep e bs = Inr v \<and>
       hasXmp v =
         (includesAscii bs (ascii ''<x:xmpmeta'') \<or>
          includesAscii bs (ascii ''http://ns.adobe.com/xap/1.0/'') \<or>
          includesAscii bs (ascii ''http://purl.org/dc/elements/1.1/'')) \<and>
       hasIptc v =
         (includesAscii bs (ascii ''Photoshop 3.0'') \<or>
          includesAscii bs (ascii ''IPTC'') \<or>
          includesAscii bs (ascii ''8BIM'')) \<and>
       hasXmp v = hasXmp (verify bs) \<and> hasIptc v = hasIptc (verify bs) \<and>
       opt_xmp parse_options = False \<and> opt_iptc parse_options = False"
  by (cases rule: verifyDeep_cases [of e bs]) (simp_all add: parse_options_def)

text \<open>
  Claim C4. \<^verbatim>\<open>verifyDeep\<close> returns a snapshot on every byte sequence and never throws.
  When the parser throws, or resolves to a value that is no object (\<^verbatim>\<open>undefined\<close> when
  it found nothing), the snapshot has the scanner's three results, no key and none of the
  optional fields.
\<close>

theorem verifyDeep_never_throws:
  "(\<exists>v. verifyDeep e bs = Inr v) \<and>
   ((\<exists>x. exifr_parse e bs parse_options = Inl x) \<or>
    (\<exists>p. exifr_parse e bs parse_options = Inr (Primitive p)) \<longrightarrow>
    verifyDeep e bs =
      Inr \<lparr>hasExif = includesAscii bs (ascii ''Exif''),
           hasXmp =
             (includesAscii bs (ascii ''<x:xmpmeta'') \<or>
              includesAscii bs (ascii ''http://ns.adobe.com/xap/1.0/'') \<or>
              includesAscii bs (ascii ''http://purl.org/dc/elements/1.1/'')),
           hasIptc =
             (includesAscii bs (ascii ''Photoshop 3.0'') \<or>
              includesAscii bs (ascii ''IPTC'') \<or>
              includesAscii bs (ascii ''8BIM'')),
           exifKeys = [], gps = None, dateTimeOriginal = None, make' = None,
           model = None, software = None\<rparr>)"
proof (cases rule: verifyDeep_cases [of e bs])
  case (object obj)
  then show ?thesis by simp
qed (simp_all add: verify_def)

theorem verifyDeep_never_throws_witness:
  "exifr_parse (example_env\<lparr>exifr_parse := \<lambda>_ _. Inl (ErrorInstance (ascii ''Unknown file format''))\<rparr>)
     [0x45, 0x78, 0x69, 0x66] parse_options = Inl (ErrorInstance (ascii ''Unknown file format'')) \<and>
   verifyDeep (example_env\<lparr>exifr_parse := \<lambda>_ _. Inl (ErrorInstance (ascii ''Unknown file format''))\<rparr>)
     [0x45, 0x78, 0x69, 0x66] =
   Inr \<lparr>hasExif = True, hasXmp = False, hasIptc = False, exifKeys = [], gps = None,
        dateTimeOriginal = None, make' = None, model = None, software = None\<rparr>"
  using verifyDeep_never_throws
    [of "example_env\<lparr>exifr_parse := \<lambda>_ _. Inl (ErrorInstance (ascii ''Unknown file format''))\<rparr>"
        "[0x45, 0x78, 0x69, 0x66]"]
    parse_throws_run
  by simp

text \<open>
  For an object without keys the assignments of the branch still run: the key list stays
  empty and no \<^verbatim>\<open>gps\<close> field is set, and the four text fields are set to \<^verbatim>\<open>undefined\<close>.
\<close>

lemma get_prop_no_keys: "Object_keys obj = [] \<Longrightarrow> get_prop obj name = Prim Undefined"
  by (simp add: Object_keys_def get_prop_def DAList.lookup.rep_eq)

lemma verifyDeep_object_without_keys:
  assumes "exifr_parse e bs parse_options = Inr (Object obj)" and "Object_keys obj = []"
  shows "verifyDeep e bs =
     Inr ((verify bs)\<lparr>dateTimeOriginal := Some (Prim Undefined), make' := Some (Prim Undefined),
                       model := Some (Prim Undefined), software := Some (Prim Undefined)\<rparr>)"
  using verifyDeep_parse_object [OF assms(1)] assms(2)
  by (simp add: read_parsed_def get_prop_no_keys nullish_def verify_def Let_def)

text \<open>
  Claim C9. When the parser resolves to an object, the snapshot has a \<^verbatim>\<open>gps\<close> field
  exactly when the latitude read (\<^verbatim>\<open>GPSLatitude\<close>, or \<^verbatim>\<open>latitude\<close> where that is
  \<^verbatim>\<open>undefined\<close> or \<^verbatim>\<open>null\<close>) or the longitude read (\<^verbatim>\<open>GPSLongitude\<close>, or
  \<^verbatim>\<open>longitude\<close>) is a number; the field then holds the two values read. When the parser
  resolves to no object, or throws, the field is absent.
\<close>

theorem verifyDeep_gps:
  "\<exists>v. verifyDeep e bs = Inr v \<and>
     (\<forall>parsed. exifr_parse e bs parse_options = Inr (Object parsed) \<longrightarrow>
        (let lat = nullish (get_prop parsed ''GPSLatitude'') (get_prop parsed ''latitude'');
             lon = nullish (get_prop parsed ''GPSLongitude'') (get_prop parsed ''longitude'')
         in (gps v \<noteq> None) = (typeof_val lat = ''number'' \<or> typeof_val lon = ''number'') \<and>
            (typeof_val lat = ''number'' \<or> typeof_val lon = ''number'' \<longrightarrow>
               gps v = Some \<lparr>latitude = lat, longitude = lon\<rparr>))) \<and>
     ((\<forall>parsed. exifr_parse e bs parse_options \<noteq> Inr (Object parsed)) \<longrightarrow> gps v = None)"
proof (cases rule: verifyDeep_cases [of e bs])
  case (throws x)
  then show ?thesis by simp
next
  case (primitive p)
  then show ?thesis by simp
next
  case (object obj)
  then show ?thesis by (simp add: read_parsed_def Let_def)
qed

theorem verifyDeep_gps_witness:
  "exifr_parse (example_env\<lparr>exifr_parse := \<lambda>_ _. Inr (Object example_tags)\<rparr>) [1, 2, 3]
     parse_options = Inr (Object example_tags) \<and>
   (\<exists>v. verifyDeep (example_env\<lparr>exifr_parse := \<lambda>_ _. Inr (Object example_tags)\<rparr>) [1, 2, 3] = Inr v \<and>
        gps v = Some \<lparr>latitude = Prim (Number (Finite 37.5)), longitude = Ref 0\<rparr>)"
  using verifyDeep_gps
    [of "example_env\<lparr>exifr_parse := \<lambda>_ _. Inr (Object example_tags)\<rparr>" "[1, 2, 3]"]
    example_tags_props
  by (auto simp add: nullish_def Let_def)

section \<open>Dispatch of the decoder\<close>

lemma String_endsWith_iff: "String_endsWith s t \<longleftrightarrow> (\<exists>p. s = p @ t)"
proof
  assume "String_endsWith s t"
  then have "s = take (length s - length t) s @ t"
    by (metis String_endsWith_def append_take_drop_id)
  then show "\<exists>p. s = p @ t" ..
next
  assume "\<exists>p. s = p @ t"
  then show "String_endsWith s t" by (auto simp: String_endsWith_def)
qed

lemma String_includes_iff: "String_includes s t \<longleftrightarrow> (\<exists>p r. s = p @ t @ r)"
proof (induction s)
  case Nil
  then show ?case by auto
next
  case (Cons c s)
  have "(take (length t) (c # s) = t) = (\<exists>r. c # s = t @ r)"
    by (metis append_eq_conv_conj append_take_drop_id)
  moreover have "(\<exists>p r. c # s = p @ t @ r) = ((\<exists>r. c # s = t @ r) \<or> (\<exists>p r. s = p @ t @ r))"
  proof
    assume "\<exists>p r. c # s = p @ t @ r"
    then obtain p r where eq: "c # s = p @ t @ r" by blast
    show "(\<exists>r. c # s = t @ r) \<or> (\<exists>p r. s = p @ t @ r)"
    proof (cases p)
      case Nil
      with eq show ?thesis by auto
    next
      case (Cons a p')
      with eq have "s = p' @ t @ r" by simp
      then show ?thesis by blast
    qed
  next
    assume "(\<exists>r. c # s = t @ r) \<or> (\<exists>p r. s = p @ t @ r)"
    then show "\<exists>p r. c # s = p @ t @ r"
    proof
      assume "\<exists>r. c # s = t @ r"
      then obtain r where "c # s = [] @ t @ r" by auto
      then show ?thesis by blast
    next
      assume "\<exists>p r. s = p @ t @ r"
      then obtain p r where "c # s = (c # p) @ t @ r" by auto
      then show ?thesis by blast
    qed
  qed
  ultimately show ?case using Cons.IH by simp
qed

lemma heic_request_lower:
  "toLowerCase example_env (fileName
     \<lparr>req_id = ascii ''7'', fileName = ascii ''photo.HEIC'', mimeType = [], bytes = [],
      outputType = image_png, quality = Finite 0.92\<rparr>) = ascii ''photo'' @ ascii ''.heic''"
  by (simp add: example_env_def ascii_toLowerCase_def ascii_def)

text \<open>
  Claim C3 as stated fails. The file name \<^verbatim>\<open>heic.jpg\<close> contains \<^verbatim>\<open>heic\<close>, and
  with the MIME type \<^verbatim>\<open>image/jpeg\<close> the request takes the native branch, whose result in
  the example environment differs from the HEIC branch's: the code tests the file name for
  the three extensions, not for a substring.
\<close>

theorem substring_dispatch_counterexample:
  "mentions_heic ascii_toLowerCase (ascii ''heic.jpg'') \<and>
   \<not> isHeicLike ascii_toLowerCase (ascii ''heic.jpg'') (ascii ''image/jpeg'') \<and>
   scrub_canvas example_env
     \<lparr>req_id = ascii ''8'', fileName = ascii ''heic.jpg'', mimeType = ascii ''image/jpeg'',
      bytes = [], outputType = image_png, quality = Finite 0.92\<rparr> =
   canvas_native example_env
     \<lparr>req_id = ascii ''8'', fileName = ascii ''heic.jpg'', mimeType = ascii ''image/jpeg'',
      bytes = [], outputType = image_png, quality = Finite 0.92\<rparr> \<and>
   canvas_native example_env
     \<lparr>req_id = ascii ''8'', fileName = ascii ''heic.jpg'', mimeType = ascii ''image/jpeg'',
      bytes = [], outputType = image_png, quality = Finite 0.92\<rparr> \<noteq>
   canvas_heic example_env
     \<lparr>req_id = ascii ''8'', fileName = ascii ''heic.jpg'', mimeType = ascii ''image/jpeg'',
      bytes = [], outputType = image_png, quality = Finite 0.92\<rparr>"
  by code_simp

text \<open>
  Claim C3, as amended. For every file name and MIME type, \<^verbatim>\<open>scrub\<close> takes the HEIC
  branch exactly when the lower-cased file name ends with \<^verbatim>\<open>.heic\<close>, \<^verbatim>\<open>.heif\<close> or
  \<^verbatim>\<open>.avif\<close>, or the lower-cased MIME type contains \<^verbatim>\<open>heic\<close>, \<^verbatim>\<open>heif\<close> or \<^verbatim>\<open>avif\<close>;
  otherwise it takes the native branch.
\<close>

theorem scrub_dispatch:
  "scrub_canvas e req =
     (if (\<exists>p. toLowerCase e (fileName req) = p @ ascii ''.heic'') \<or>
         (\<exists>p. toLowerCase e (fileName req) = p @ ascii ''.heif'') \<or>
         (\<exists>p. toLowerCase e (fileName req) = p @ ascii ''.avif'') \<or>
         (\<exists>p r. toLowerCase e (mimeType req) = p @ ascii ''heic'' @ r) \<or>
         (\<exists>p r. toLowerCase e (mimeType req) = p @ ascii ''heif'' @ r) \<or>
         (\<exists>p r. toLowerCase e (mimeType req) = p @ ascii ''avif'' @ r)
      then canvas_heic e req else canvas_native e req)"
  unfolding scrub_canvas_def isHeicLike_def Let_def String_endsWith_iff String_includes_iff
  by (rule refl)

theorem scrub_dispatch_witness:
  "scrub_canvas example_env
     \<lparr>req_id = ascii ''7'', fileName = ascii ''photo.HEIC'', mimeType = [], bytes = [],
      outputType = image_png, quality = Finite 0.92\<rparr> =
   canvas_heic example_env
     \<lparr>req_id = ascii ''7'', fileName = ascii ''photo.HEIC'', mimeType = [], bytes = [],
      outputType = image_png, quality = Finite 0.92\<rparr>"
proof -
  let ?req = "\<lparr>req_id = ascii ''7'', fileName = ascii ''photo.HEIC'', mimeType = [], bytes = [],
      outputType = image_png, quality = Finite 0.92\<rparr>"
  have "\<exists>p. toLowerCase example_env (fileName ?req) = p @ ascii ''.heic''"
    using heic_request_lower by blast
  then show ?thesis
    using scrub_dispatch [of example_env ?req] by (simp only: if_True simp_thms)
qed

section \<open>The scrub operation\<close>






subsection \<open>Runs on examples\<close>





section \<open>Quality handed to the encoder\<close>

lemma Math_clamp:
  "Math_min (Finite 1) (Math_max (Finite 0) q) =
     (case q of NaN \<Rightarrow> NaN | NegInfinity \<Rightarrow> Finite 0 | PosInfinity \<Rightarrow> Finite 1
      | Finite r \<Rightarrow> if r < 0 then Finite 0 else if 1 < r then Finite 1 else Finite r)"
  by (cases q) (simp_all add: Math_min_def Math_max_def)

lemma encode_quality_eq:
  "encode_quality (encode_options req) = Math_min (Finite 1) (Math_max (Finite 0) (quality req))"
  by (simp add: encode_options_def)




lemma clamp_in_unit_interval:
  "q \<noteq> NaN \<Longrightarrow> in_unit_interval (Math_min (Finite 1) (Math_max (Finite 0) q))"
  by (cases q) (simp_all add: Math_clamp)





lemma example_canvas:
  "scrub_canvas example_env
     \<lparr>req_id = ascii ''1'', fileName = ascii ''a.png'', mimeType = ascii ''image/png'',
      bytes = [], outputType = image_jpeg, quality = NaN\<rparr> =
   Inr \<lparr>canvas_width = 1, canvas_height = 1, canvas_pixels = [255, 255, 255, 255]\<rparr>"
  by code_simp

lemma scrub_success:
  assumes "scrub_canvas e req = Inr c" and "convertToBlob e c (encode_options req) = Inr out"
  shows "\<exists>b a. scrub e req =
     Inr (Success (req_id req) (blob_bytes out)
            (if blob_type out \<noteq> [] then blob_type out else outputType_string (outputType req))
            b a)"
proof -
  obtain b where b: "verifyDeep e (bytes req) = Inr b" using verifyDeep_total by blast
  obtain a where a: "verifyDeep e (blob_bytes out) = Inr a" using verifyDeep_total by blast
  have "scrub_try e req =
     Inr (Success (req_id req) (blob_bytes out)
            (if blob_type out \<noteq> [] then blob_type out else outputType_string (outputType req))
            b a)"
    by (simp add: scrub_try_def bind_async_def settled_def assms a b)
  then show ?thesis by (simp add: scrub_def try_catch_async_def)
qed

text \<open>
  Claim C10. The clamp leaves NaN as it is: for a request whose quality is NaN the
  expression \<^verbatim>\<open>Math.min(1, Math.max(0, quality))\<close> is NaN, which is not in the interval
  from 0 to 1, and the response of a request that reaches the encoder is built from what
  the encoder answers to that quality. For every other quality the value lies in the
  interval.
\<close>

theorem NaN_quality_reaches_encoder:
  "encode_quality (encode_options (req\<lparr>quality := NaN\<rparr>)) = NaN \<and>
   \<not> in_unit_interval NaN \<and>
   (\<forall>q. q \<noteq> NaN \<longrightarrow> in_unit_interval (encode_quality (encode_options (req\<lparr>quality := q\<rparr>)))) \<and>
   (quality req = NaN \<and> scrub_canvas e req = Inr c \<and>
    convertToBlob e c \<lparr>encode_type = outputType req, encode_quality = NaN\<rparr> = Inr out \<longrightarrow>
    (\<exists>b a. scrub e req =
       Inr (Success (req_id req) (blob_bytes out)
              (if blob_type out \<noteq> [] then blob_type out else outputType_string (outputType req))
              b a)))"
proof (intro conjI allI impI)
  show "encode_quality (encode_options (req\<lparr>quality := NaN\<rparr>)) = NaN"
    by (simp add: encode_options_def Math_max_def Math_min_def)
  show "\<not> in_unit_interval NaN" by simp
next
  fix q :: jsnum assume "q \<noteq> NaN"
  then show "in_unit_interval (encode_quality (encode_options (req\<lparr>quality := q\<rparr>)))"
    by (simp add: encode_quality_eq clamp_in_unit_interval)
next
  assume h: "quality req = NaN \<and> scrub_canvas e req = Inr c \<and>
    convertToBlob e c \<lparr>encode_type = outputType req, encode_quality = NaN\<rparr> = Inr out"
  then have "encode_options req = \<lparr>encode_type = outputType req, encode_quality = NaN\<rparr>"
    by (simp add: encode_options_def Math_max_def Math_min_def)
  with h show "\<exists>b a. scrub e req =
       Inr (Success (req_id req) (blob_bytes out)
              (if blob_type out \<noteq> [] then blob_type out else outputType_string (outputType req))
              b a)"
    using scrub_success [of e req c out] by simp
qed

theorem NaN_quality_reaches_encoder_witness:
  "quality \<lparr>req_id = ascii ''1'', fileName = ascii ''a.png'', mimeType = ascii ''image/png'',
      bytes = [], outputType = image_jpeg, quality = NaN\<rparr> = NaN \<and>
   in_unit_interval (encode_quality (encode_options
     \<lparr>req_id = ascii ''1'', fileName = ascii ''a.png'', mimeType = ascii ''image/png'',
      bytes = [], outputType = image_jpeg, quality = Finite 0.92\<rparr>)) \<and>
   (\<exists>b a. scrub example_env
     \<lparr>req_id = ascii ''1'', fileName = ascii ''a.png'', mimeType = ascii ''image/png'',
      bytes = [], outputType = image_jpeg, quality = NaN\<rparr> =
     Inr (Success (ascii ''1'') [255, 255, 255, 255] (ascii ''image/jpeg'') b a))"
proof -
  let ?req = "\<lparr>req_id = ascii ''1'', fileName = ascii ''a.png'', mimeType = ascii ''image/png'',
      bytes = [], outputType = image_jpeg, quality = NaN\<rparr>"
  let ?c = "\<lparr>canvas_width = 1, canvas_height = 1, canvas_pixels = [255, 255, 255, 255]\<rparr>"
  let ?out = "\<lparr>blob_type = ascii ''image/jpeg'', blob_bytes = [255, 255, 255, 255]\<rparr>"
  have enc: "convertToBlob example_env ?c \<lparr>encode_type = outputType ?req, encode_quality = NaN\<rparr> = Inr ?out"
    by (simp add: example_env_def)
  have ne: "ascii ''image/jpeg'' \<noteq> []" by (simp add: ascii_def)
  have "Finite 0.92 \<noteq> NaN" by simp
  with NaN_quality_reaches_encoder [of ?req example_env ?c ?out] example_canvas enc ne
  show ?thesis by simp
qed

end
